theory Spec2Isabelle
  imports Main "HOL-Library.AList"
begin

section \<open>Python values: exceptions, sequences, dictionaries\<close>

text \<open>
  The exceptions that the constructors of \<^verbatim>\<open>esrgan/models/discriminator.py\<close> can end
  with. \<open>IndexError\<close>, \<open>KeyError\<close>, \<open>ZeroDivisionError\<close> and \<open>TypeError\<close> are raised by
  Python itself (indexing a list, indexing a dict, \<^verbatim>\<open>//\<close>, calling \<^verbatim>\<open>None\<close>);
  \<open>RuntimeError\<close> is what \<^verbatim>\<open>Tensor.view\<close> raises. \<open>ConfigurationError\<close> is the
  exception the specification names; the source defines and raises no such exception, it
  is a value here so that statements about it can be written down.
\<close>

datatype error =
    IndexError
  | KeyError string
  | ZeroDivisionError
  | TypeError
  | RuntimeError
  | ConfigurationError

text \<open>Sequencing of steps that may raise: the first exception ends the computation.\<close>

fun bind_err :: "error + 'a \<Rightarrow> ('a \<Rightarrow> error + 'b) \<Rightarrow> error + 'b" where
  "bind_err (Inl e) f = Inl e"
| "bind_err (Inr x) f = f x"

text \<open>\<^verbatim>\<open>xs[i]\<close> on a list: indices \<open>-len \<dots> len - 1\<close> are valid, all others raise.\<close>

definition list_getitem :: "'a list \<Rightarrow> int \<Rightarrow> error + 'a" where
  "list_getitem xs i =
     (if 0 \<le> i \<and> i < int (length xs) then Inr (xs ! nat i)
      else if i < 0 \<and> - int (length xs) \<le> i then Inr (xs ! nat (int (length xs) + i))
      else Inl IndexError)"

text \<open>\<^verbatim>\<open>d[k]\<close> on a dict, kept as an association list in insertion order.\<close>

definition dict_getitem :: "(string \<times> 'v) list \<Rightarrow> string \<Rightarrow> error + 'v" where
  "dict_getitem d k = (case map_of d k of None \<Rightarrow> Inl (KeyError k) | Some v \<Rightarrow> Inr v)"

text \<open>
  \<^verbatim>\<open>collections.OrderedDict(pairs)\<close>: the pairs are inserted from left to right; a key
  that is already present keeps its position and takes the new value.
\<close>

definition OrderedDict :: "(string \<times> 'v) list \<Rightarrow> (string \<times> 'v) list" where
  "OrderedDict pairs = foldl (\<lambda>d kv. AList.update (fst kv) (snd kv) d) [] pairs"

text \<open>\<^verbatim>\<open>str(i)\<close> for a natural number, as the f-string \<^verbatim>\<open>f"block_{i}"\<close> prints it.\<close>

definition digit_char :: "nat \<Rightarrow> char" where
  "digit_char d = char_of (48 + d)"

function str_nat :: "nat \<Rightarrow> string" where
  "str_nat n = (if n < 10 then [digit_char n] else str_nat (n div 10) @ [digit_char (n mod 10)])"
  by pat_completeness auto
termination
  by (relation "measure id") auto

definition block_name :: "nat \<Rightarrow> string" where
  "block_name i = ''block_'' @ str_nat i"

text \<open>
  Modelled from the spec: \<^verbatim>\<open>utils.pairwise\<close> is imported from \<^verbatim>\<open>esrgan.utils\<close>, which is
  not among the sources. The specification describes its result as the adjacent pairs
  \<open>(in_ch, out_ch)\<close> of the channel list, in order.
\<close>

definition pairwise :: "'a list \<Rightarrow> ('a \<times> 'a) list" where
  "pairwise xs = zip xs (tl xs)"

section \<open>Modules and layer factories\<close>

text \<open>
  The layer constructors (\<^verbatim>\<open>conv\<close>, \<^verbatim>\<open>norm\<close>, \<^verbatim>\<open>activation\<close>, \<^verbatim>\<open>linear\<close>,
  \<^verbatim>\<open>dropout\<close>, \<^verbatim>\<open>residual\<close>) are callables handed in by the caller. A factory is
  identified by a name, and the module that a call returns is the record of that call:
  which factory, which positional arguments, which keyword arguments. Containers are the
  two ways the source builds \<^verbatim>\<open>nn.Sequential\<close>: from an ordered dictionary of named
  modules, or from positional modules.
\<close>

datatype factory = Factory string

type_synonym kwargs = "(string \<times> int) list"

datatype module =
    Layer factory "int list" kwargs
  | Disabled
  | Sequential "(string \<times> module) list"
  | SequentialArgs "module list"
  | Wrapped factory module

text \<open>
  Calling a value that is a factory or \<^verbatim>\<open>None\<close> with positional and keyword
  arguments; \<^verbatim>\<open>None(...)\<close> is a \<open>TypeError\<close>.
\<close>

fun call :: "factory option \<Rightarrow> int list \<Rightarrow> kwargs \<Rightarrow> error + module" where
  "call (Some f) args kw = Inr (Layer f args kw)"
| "call None args kw = Inl TypeError"

text \<open>
  Modelled from the spec: \<^verbatim>\<open>utils.create_layer\<close> is imported from \<^verbatim>\<open>esrgan.utils\<close>,
  which is not among the sources. The specification's layer factory resolves a role to a
  layer "given input/output channel counts and optional extra arguments (e.g., stride)",
  through "a callable taking (in_channels, out_channels, **extra)"; a role whose factory
  is \<^verbatim>\<open>None\<close> is "disabled", a "no-op".
\<close>

fun create_layer :: "string \<Rightarrow> factory option \<Rightarrow> int \<Rightarrow> int \<Rightarrow> kwargs \<Rightarrow> module" where
  "create_layer layer_name (Some layer) in_channels out_channels kw =
     Layer layer [in_channels, out_channels] kw"
| "create_layer layer_name None in_channels out_channels kw = Disabled"

section \<open>StridedConvEncoder\<close>

text \<open>
  The object keeps \<^verbatim>\<open>self._layers\<close> (here \<open>layers_attr\<close>) and \<^verbatim>\<open>self.net\<close> (here
  \<open>enc_net\<close>). The channel sizes are Python integers, so \<open>int\<close>; \<^verbatim>\<open>layer_order\<close> is a
  tuple or list of role names, read once for every block.
\<close>

record StridedConvEncoder =
  layers_attr :: "int list"
  enc_net :: module

text \<open>The dictionary \<^verbatim>\<open>name2fn\<close> of \<^verbatim>\<open>StridedConvEncoder.__init__\<close>.\<close>

definition encoder_name2fn ::
  "factory \<Rightarrow> factory option \<Rightarrow> factory \<Rightarrow> (string \<times> factory option) list" where
  "encoder_name2fn conv norm activation =
     [(''activation'', Some activation), (''conv'', Some conv), (''norm'', norm)]"

text \<open>
  \<^verbatim>\<open>kwargs = {"stride": out_ch // in_ch} if name == "conv" else {}\<close>. Python's \<^verbatim>\<open>//\<close>
  is floor division, as \<open>div\<close> on \<open>int\<close> is, and raises when the divisor is zero.
\<close>

definition stride_kwargs :: "string \<Rightarrow> int \<Rightarrow> int \<Rightarrow> error + kwargs" where
  "stride_kwargs name in_ch out_ch =
     (if name = ''conv''
      then (if in_ch = 0 then Inl ZeroDivisionError else Inr [(''stride'', out_ch div in_ch)])
      else Inr [])"

text \<open>The inner loop \<^verbatim>\<open>for name in layer_order\<close>, which fills \<^verbatim>\<open>block_list\<close>.\<close>

fun encoder_block_list ::
  "(string \<times> factory option) list \<Rightarrow> int \<Rightarrow> int \<Rightarrow> string list \<Rightarrow> error + (string \<times> module) list" where
  "encoder_block_list name2fn in_ch out_ch [] = Inr []"
| "encoder_block_list name2fn in_ch out_ch (name # names) =
     bind_err (stride_kwargs name in_ch out_ch) (\<lambda>kw.
     bind_err (dict_getitem name2fn name) (\<lambda>layer.
     bind_err (encoder_block_list name2fn in_ch out_ch names) (\<lambda>rest.
       Inr ((name, create_layer name layer in_ch out_ch kw) # rest))))"

text \<open>
  \<^verbatim>\<open>if residual is not None and in_ch == out_ch: block = residual(block)\<close>
\<close>

definition add_residual :: "factory option \<Rightarrow> int \<Rightarrow> int \<Rightarrow> module \<Rightarrow> module" where
  "add_residual residual in_ch out_ch block =
     (if residual \<noteq> None \<and> in_ch = out_ch then Wrapped (the residual) block else block)"

text \<open>
  The outer loop \<^verbatim>\<open>for i, (in_ch, out_ch) in enumerate(channels, start=1)\<close>, which
  appends the named blocks to \<^verbatim>\<open>net\<close>.
\<close>

fun encoder_blocks ::
  "(string \<times> factory option) list \<Rightarrow> string list \<Rightarrow> factory option \<Rightarrow> nat \<Rightarrow> (int \<times> int) list
     \<Rightarrow> error + (string \<times> module) list" where
  "encoder_blocks name2fn layer_order residual i [] = Inr []"
| "encoder_blocks name2fn layer_order residual i ((in_ch, out_ch) # channels) =
     bind_err (encoder_block_list name2fn in_ch out_ch layer_order) (\<lambda>block_list.
     bind_err (encoder_blocks name2fn layer_order residual (Suc i) channels) (\<lambda>rest.
       Inr ((block_name i,
             add_residual residual in_ch out_ch (Sequential (OrderedDict block_list))) # rest)))"

definition StridedConvEncoder_init ::
  "int list \<Rightarrow> string list \<Rightarrow> factory \<Rightarrow> factory option \<Rightarrow> factory \<Rightarrow> factory option
     \<Rightarrow> error + StridedConvEncoder" where
  "StridedConvEncoder_init layers layer_order conv norm activation residual =
     (let name2fn = encoder_name2fn conv norm activation in
      bind_err (dict_getitem name2fn ''conv'') (\<lambda>conv_fn.
      bind_err (list_getitem layers 0) (\<lambda>c0.
      bind_err (list_getitem layers 1) (\<lambda>c1.
      bind_err (call conv_fn [c0, c1] []) (\<lambda>conv_0.
      bind_err (dict_getitem name2fn ''activation'') (\<lambda>act_fn.
      bind_err (call act_fn [] []) (\<lambda>act.
      bind_err (encoder_blocks name2fn layer_order residual 1 (pairwise (drop 1 layers))) (\<lambda>blocks.
        Inr \<lparr>layers_attr = layers,
             enc_net = Sequential (OrderedDict
               ((''block_0'', Sequential (OrderedDict [(''conv_0'', conv_0), (''act'', act)]))
                # blocks))\<rparr>))))))))"

text \<open>The properties \<^verbatim>\<open>in_channels\<close> and \<^verbatim>\<open>out_channels\<close>.\<close>

definition in_channels :: "StridedConvEncoder \<Rightarrow> error + int" where
  "in_channels self = list_getitem (layers_attr self) 0"

definition out_channels :: "StridedConvEncoder \<Rightarrow> error + int" where
  "out_channels self = list_getitem (layers_attr self) (- 1)"

section \<open>LinearHead\<close>

record LinearHead =
  head_net :: module

text \<open>The dictionary \<^verbatim>\<open>name2fn\<close> of \<^verbatim>\<open>LinearHead.__init__\<close>.\<close>

definition head_name2fn ::
  "factory \<Rightarrow> factory \<Rightarrow> factory option \<Rightarrow> factory option \<Rightarrow> (string \<times> factory option) list" where
  "head_name2fn linear activation norm dropout =
     [(''activation'', Some activation), (''dropout'', dropout),
      (''linear'', Some linear), (''norm'', norm)]"

text \<open>The inner loop \<^verbatim>\<open>for name in layer_order\<close> for one pair of channels.\<close>

fun head_block ::
  "(string \<times> factory option) list \<Rightarrow> int \<Rightarrow> int \<Rightarrow> string list \<Rightarrow> error + module list" where
  "head_block name2fn in_ch out_ch [] = Inr []"
| "head_block name2fn in_ch out_ch (name # names) =
     bind_err (dict_getitem name2fn name) (\<lambda>layer.
     bind_err (head_block name2fn in_ch out_ch names) (\<lambda>rest.
       Inr (create_layer name layer in_ch out_ch [] # rest)))"

text \<open>The outer loop \<^verbatim>\<open>for in_ch, out_ch in channels_pairs[:-1]\<close>.\<close>

fun head_blocks ::
  "(string \<times> factory option) list \<Rightarrow> string list \<Rightarrow> (int \<times> int) list \<Rightarrow> error + module list" where
  "head_blocks name2fn layer_order [] = Inr []"
| "head_blocks name2fn layer_order ((in_ch, out_ch) # pairs) =
     bind_err (head_block name2fn in_ch out_ch layer_order) (\<lambda>modules.
     bind_err (head_blocks name2fn layer_order pairs) (\<lambda>rest.
       Inr (modules @ rest)))"

text \<open>
  \<^verbatim>\<open>latent_channels or []\<close> replaces \<^verbatim>\<open>None\<close> (and the empty sequence) by the empty
  list; \<^verbatim>\<open>channels_pairs[:-1]\<close> is all pairs but the last, \<^verbatim>\<open>channels_pairs[-1]\<close> the
  last one, whose two components are the positional arguments of the final call. The
  parameters \<^verbatim>\<open>in_channels\<close> and \<^verbatim>\<open>out_channels\<close> are written \<open>head_in_channels\<close> and
  \<open>head_out_channels\<close>, apart from the encoder's properties of the same names.
\<close>

definition LinearHead_init ::
  "int \<Rightarrow> int \<Rightarrow> int list option \<Rightarrow> string list \<Rightarrow> factory \<Rightarrow> factory \<Rightarrow> factory option
     \<Rightarrow> factory option \<Rightarrow> error + LinearHead" where
  "LinearHead_init head_in_channels head_out_channels latent_channels layer_order
       linear activation norm dropout =
     (let name2fn = head_name2fn linear activation norm dropout;
          latent = (if latent_channels = None \<or> latent_channels = Some [] then []
                    else the latent_channels);
          channels = [head_in_channels] @ latent @ [head_out_channels];
          channels_pairs = pairwise channels in
      bind_err (head_blocks name2fn layer_order (butlast channels_pairs)) (\<lambda>net.
      bind_err (dict_getitem name2fn ''linear'') (\<lambda>linear_fn.
      bind_err (list_getitem channels_pairs (- 1)) (\<lambda>last_pair.
      bind_err (call linear_fn [fst last_pair, snd last_pair] []) (\<lambda>final.
        Inr \<lparr>head_net = SequentialArgs (net @ [final])\<rparr>)))))"

section \<open>VGGConv\<close>

text \<open>
  A tensor is its shape, its strides (the memory layout, in elements) and its elements in
  row-major order of the indices; the element type is left open. A view changes shape and
  strides and keeps the elements.
\<close>

record 'a tensor =
  shape :: "nat list"
  strides :: "nat list"
  elems :: "'a list"

definition numel :: "'a tensor \<Rightarrow> nat" where
  "numel x = prod_list (shape x)"

text \<open>
  Whether \<^verbatim>\<open>Tensor.view\<close> can give a tensor a new shape without copying is decided by
  the stride computation of the tensor library, which is followed here. The axes of the
  tensor are read from the last to the first and grouped into chunks that are laid out
  densely; \<open>view_chunk\<close> is the inner loop that hands the axes of the new shape (also from
  the last to the first) to the current chunk, \<open>view_chunks\<close> the outer loop over the axes
  of the tensor, each given as its size and its stride.
\<close>

fun view_chunk :: "nat \<Rightarrow> nat \<Rightarrow> nat \<Rightarrow> nat list \<Rightarrow> nat list \<Rightarrow> nat \<times> nat list \<times> nat list" where
  "view_chunk chunk_base_stride tensor_numel view_numel [] newstride = (view_numel, [], newstride)"
| "view_chunk chunk_base_stride tensor_numel view_numel (d # ds) newstride =
     (if view_numel < tensor_numel \<or> d = 1
      then view_chunk chunk_base_stride tensor_numel (view_numel * d) ds
             ((view_numel * chunk_base_stride) # newstride)
      else (view_numel, d # ds, newstride))"

fun view_chunks ::
  "(nat \<times> nat) list \<Rightarrow> nat \<Rightarrow> nat \<Rightarrow> nat \<Rightarrow> nat list \<Rightarrow> nat list \<Rightarrow> (nat list \<times> nat list) option" where
  "view_chunks [] chunk_base_stride tensor_numel view_numel view_dims newstride =
     Some (view_dims, newstride)"
| "view_chunks ((size_d, stride_d) # rest) chunk_base_stride tensor_numel view_numel view_dims newstride =
     (let tensor_numel' = tensor_numel * size_d in
      if (case rest of [] \<Rightarrow> True
          | (size_p, stride_p) # _ \<Rightarrow> size_p \<noteq> 1 \<and> stride_p \<noteq> tensor_numel' * chunk_base_stride)
      then (case view_chunk chunk_base_stride tensor_numel' view_numel view_dims newstride of
              (view_numel', view_dims', newstride') \<Rightarrow>
                if view_numel' = tensor_numel'
                then (case rest of [] \<Rightarrow> Some (view_dims', newstride')
                      | (size_p, stride_p) # _ \<Rightarrow> view_chunks rest stride_p 1 1 view_dims' newstride')
                else None)
      else view_chunks rest chunk_base_stride tensor_numel' view_numel view_dims newstride)"

text \<open>The strides of a freshly resized tensor, used when there are no elements.\<close>

fun resize_strides :: "nat list \<Rightarrow> nat list" where
  "resize_strides [] = []"
| "resize_strides [d] = [1]"
| "resize_strides (d # e # ds) = (max e 1 * hd (resize_strides (e # ds))) # resize_strides (e # ds)"

definition computeStride :: "nat list \<Rightarrow> nat list \<Rightarrow> nat list \<Rightarrow> nat list option" where
  "computeStride oldshape oldstride newshape =
     (if oldshape = [] then Some (replicate (length newshape) 1)
      else if prod_list oldshape = 0
      then (if oldshape = newshape then Some oldstride else Some (resize_strides newshape))
      else (case view_chunks (rev (zip oldshape oldstride)) (last oldstride) 1 1 (rev newshape) [] of
              None \<Rightarrow> None
            | Some (view_dims, newstride) \<Rightarrow> if view_dims = [] then Some newstride else None))"

text \<open>
  \<^verbatim>\<open>x.view(n, -1)\<close>: the size \<open>-1\<close> is inferred as \<open>numel / n\<close>, which raises when \<open>n\<close> is
  zero or does not divide the number of elements; then the strides are computed, and the
  view raises when the layout of \<open>x\<close> does not admit the new shape.
\<close>

definition view_rows :: "'a tensor \<Rightarrow> nat \<Rightarrow> error + 'a tensor" where
  "view_rows x n =
     (if 0 < n \<and> numel x mod n = 0
      then (case computeStride (shape x) (strides x) [n, numel x div n] of
              None \<Rightarrow> Inl RuntimeError
            | Some newstride \<Rightarrow>
                Inr \<lparr>shape = [n, numel x div n], strides = newstride, elems = elems x\<rparr>)
      else Inl RuntimeError)"

text \<open>\<^verbatim>\<open>x.view(x.shape[0], -1)\<close>\<close>

definition view_batch :: "'a tensor \<Rightarrow> error + 'a tensor" where
  "view_batch x = bind_err (list_getitem (shape x) 0) (\<lambda>n. view_rows x n)"

text \<open>
  The strides of a contiguous tensor of a given shape.
\<close>

fun contiguous_strides :: "nat list \<Rightarrow> nat list" where
  "contiguous_strides [] = []"
| "contiguous_strides (d # ds) = prod_list (map (max 1) ds) # contiguous_strides ds"


text \<open>
  The three sub-modules are arbitrary \<^verbatim>\<open>nn.Module\<close>s of an open type \<open>'m\<close>; what calling
  one of them on a tensor returns is given by a function \<open>run\<close>. The calls that leave
  \<^verbatim>\<open>VGGConv\<close> are recorded in a log, in the order in which they happen.
  \<^verbatim>\<open>utils.net_init_\<close> is imported from \<^verbatim>\<open>esrgan.utils\<close>, which is not among the
  sources; it is a parameter \<open>net_init\<close> that maps the network to the network with its
  parameters initialised.
\<close>

record 'm VGGConv =
  encoder :: 'm
  pool :: 'm
  head :: 'm

datatype event = NetInit | ModuleCall string

definition VGGConv_init ::
  "('m VGGConv \<Rightarrow> 'm VGGConv) \<Rightarrow> 'm \<Rightarrow> 'm \<Rightarrow> 'm \<Rightarrow> event list \<Rightarrow> 'm VGGConv \<times> event list" where
  "VGGConv_init net_init encoder_arg pool_arg head_arg log =
     (let self = \<lparr>encoder = encoder_arg, pool = pool_arg, head = head_arg\<rparr>
      in (net_init self, log @ [NetInit]))"

definition VGGConv_forward ::
  "('m \<Rightarrow> 'a tensor \<Rightarrow> error + 'a tensor) \<Rightarrow> 'm VGGConv \<Rightarrow> 'a tensor \<Rightarrow> event list
     \<Rightarrow> (error + 'a tensor) \<times> event list" where
  "VGGConv_forward run self x log =
     (case run (encoder self) x of
        Inl e \<Rightarrow> (Inl e, log @ [ModuleCall ''encoder''])
      | Inr x1 \<Rightarrow>
          (case run (pool self) x1 of
             Inl e \<Rightarrow> (Inl e, log @ [ModuleCall ''encoder'', ModuleCall ''pool''])
           | Inr x2 \<Rightarrow>
               (case view_batch x2 of
                  Inl e \<Rightarrow> (Inl e, log @ [ModuleCall ''encoder'', ModuleCall ''pool''])
                | Inr x3 \<Rightarrow>
                    (run (head self) x3,
                     log @ [ModuleCall ''encoder'', ModuleCall ''pool'', ModuleCall ''head'']))))"

text \<open>
  The life of one \<^verbatim>\<open>VGGConv\<close> object: it is constructed, then \<^verbatim>\<open>forward\<close> is called
  on the inputs \<open>xs\<close> one after the other. The result is the log of all calls.
\<close>

fun VGGConv_forwards ::
  "('m \<Rightarrow> 'a tensor \<Rightarrow> error + 'a tensor) \<Rightarrow> 'm VGGConv \<Rightarrow> 'a tensor list \<Rightarrow> event list \<Rightarrow> event list" where
  "VGGConv_forwards run self [] log = log"
| "VGGConv_forwards run self (x # xs) log =
     VGGConv_forwards run self xs (snd (VGGConv_forward run self x log))"

definition VGGConv_lifetime ::
  "('m VGGConv \<Rightarrow> 'm VGGConv) \<Rightarrow> ('m \<Rightarrow> 'a tensor \<Rightarrow> error + 'a tensor) \<Rightarrow> 'm \<Rightarrow> 'm \<Rightarrow> 'm
     \<Rightarrow> 'a tensor list \<Rightarrow> event list" where
  "VGGConv_lifetime net_init run encoder_arg pool_arg head_arg xs =
     (case VGGConv_init net_init encoder_arg pool_arg head_arg [] of
        (self, log) \<Rightarrow> VGGConv_forwards run self xs log)"

section \<open>Auxiliary notions\<close>

text \<open>Reading a decimal numeral back; used to show that \<open>str_nat\<close> is injective.\<close>

definition nat_of_digits :: "string \<Rightarrow> nat" where
  "nat_of_digits s = foldl (\<lambda>a c. 10 * a + (of_char c - 48)) 0 s"

text \<open>
  The entry that the inner loop of the encoder appends for one role, the block that the
  outer loop appends for one pair of channels, the condition under which the inner loop
  raises nothing, and the stem block.
\<close>

definition encoder_entry ::
  "(string \<times> factory option) list \<Rightarrow> int \<Rightarrow> int \<Rightarrow> string \<Rightarrow> string \<times> module" where
  "encoder_entry name2fn in_ch out_ch name =
     (name, create_layer name (the (map_of name2fn name)) in_ch out_ch
              (if name = ''conv'' then [(''stride'', out_ch div in_ch)] else []))"

definition encoder_block ::
  "(string \<times> factory option) list \<Rightarrow> string list \<Rightarrow> factory option \<Rightarrow> nat \<Rightarrow> int \<times> int
     \<Rightarrow> string \<times> module" where
  "encoder_block name2fn layer_order residual i ch =
     (block_name i,
      add_residual residual (fst ch) (snd ch)
        (Sequential (OrderedDict (map (encoder_entry name2fn (fst ch) (snd ch)) layer_order))))"

definition block_ok :: "(string \<times> factory option) list \<Rightarrow> string list \<Rightarrow> int \<Rightarrow> bool" where
  "block_ok name2fn layer_order in_ch \<longleftrightarrow>
     (\<forall>name \<in> set layer_order. map_of name2fn name \<noteq> None) \<and>
     (''conv'' \<in> set layer_order \<longrightarrow> in_ch \<noteq> 0)"

definition stem :: "factory \<Rightarrow> factory \<Rightarrow> int list \<Rightarrow> string \<times> module" where
  "stem conv activation layers =
     (''block_0'', Sequential [(''conv_0'', Layer conv [layers ! 0, layers ! 1] []),
                               (''act'', Layer activation [] [])])"

text \<open>Whether a block is the result of calling the residual factory.\<close>

fun is_wrapped :: "module \<Rightarrow> bool" where
  "is_wrapped (Wrapped r block) = True"
| "is_wrapped (Layer f args kw) = False"
| "is_wrapped Disabled = False"
| "is_wrapped (Sequential named) = False"
| "is_wrapped (SequentialArgs ms) = False"

text \<open>
  The latent widths after \<^verbatim>\<open>latent_channels or []\<close>, the module that the inner loop of
  the head appends for one role, and the number of direct sub-modules of a container that
  were built by a given factory.
\<close>

definition head_latent :: "int list option \<Rightarrow> int list" where
  "head_latent latent_channels = (case latent_channels of None \<Rightarrow> [] | Some l \<Rightarrow> l)"

definition head_entry :: "(string \<times> factory option) list \<Rightarrow> int \<times> int \<Rightarrow> string \<Rightarrow> module" where
  "head_entry name2fn ch name =
     create_layer name (the (map_of name2fn name)) (fst ch) (snd ch) []"

fun is_layer_of :: "factory \<Rightarrow> module \<Rightarrow> bool" where
  "is_layer_of f (Layer g args kw) = (f = g)"
| "is_layer_of f Disabled = False"
| "is_layer_of f (Sequential named) = False"
| "is_layer_of f (SequentialArgs ms) = False"
| "is_layer_of f (Wrapped r block) = False"

fun children :: "module \<Rightarrow> module list" where
  "children (SequentialArgs ms) = ms"
| "children (Sequential named) = map snd named"
| "children (Wrapped r block) = [block]"
| "children (Layer f args kw) = []"
| "children Disabled = []"

definition count_layers_of :: "factory \<Rightarrow> module \<Rightarrow> nat" where
  "count_layers_of f m = length (filter (is_layer_of f) (children m))"



section \<open>Lemmas about the Python helpers\<close>

declare str_nat.simps [simp del]


lemma digit_char_inv: "d < 10 \<Longrightarrow> of_char (digit_char d) = (48 + d :: nat)"
  unfolding digit_char_def by (simp add: of_char_of)

lemma nat_of_digits_str_nat: "nat_of_digits (str_nat n) = n"
proof (induction n rule: str_nat.induct)
  case (1 n)
  show ?case
  proof (cases "n < 10")
    case True
    then show ?thesis by (subst str_nat.simps) (simp add: nat_of_digits_def digit_char_inv)
  next
    case False
    with 1 have ih: "nat_of_digits (str_nat (n div 10)) = n div 10" by simp
    have "nat_of_digits (str_nat n) = 10 * nat_of_digits (str_nat (n div 10)) + n mod 10"
      using False by (subst str_nat.simps) (simp add: nat_of_digits_def digit_char_inv)
    then show ?thesis using ih by simp
  qed
qed

lemma str_nat_inj: "str_nat m = str_nat n \<Longrightarrow> m = n"
  by (metis nat_of_digits_str_nat)

lemma block_name_inj: "block_name m = block_name n \<longleftrightarrow> m = n"
  by (auto simp: block_name_def dest: str_nat_inj)

lemma block_name_0: "block_name 0 = ''block_0''"
  by code_simp

lemma OrderedDict_snoc: "OrderedDict (xs @ [(k, v)]) = AList.update k v (OrderedDict xs)"
  by (simp add: OrderedDict_def)

lemma update_fresh: "k \<notin> fst ` set d \<Longrightarrow> AList.update k v d = d @ [(k, v)]"
  by (induction d) auto

lemma OrderedDict_distinct: "distinct (map fst xs) \<Longrightarrow> OrderedDict xs = xs"
proof (induction xs rule: rev_induct)
  case Nil
  then show ?case by (simp add: OrderedDict_def)
next
  case (snoc x xs)
  obtain k v where x: "x = (k, v)" by (cases x)
  from snoc.prems have d: "distinct (map fst xs)" and k: "k \<notin> fst ` set xs"
    by (auto simp: x)
  have "OrderedDict (xs @ [x]) = AList.update k v xs"
    using snoc.IH d by (simp add: x OrderedDict_snoc)
  then show ?case using k by (simp add: update_fresh x)
qed

lemma map_of_OrderedDict: "map_of (OrderedDict xs) = map_of (rev xs)"
proof (induction xs rule: rev_induct)
  case Nil
  then show ?case by (simp add: OrderedDict_def)
next
  case (snoc x xs)
  obtain k v where x: "x = (k, v)" by (cases x)
  show ?case using snoc.IH by (simp add: x OrderedDict_snoc AList.update_conv')
qed

lemma bind_err_Inr_iff: "bind_err m f = Inr y \<longleftrightarrow> (\<exists>x. m = Inr x \<and> f x = Inr y)"
  by (cases m) auto

lemma bind_err_Inl_iff: "bind_err m f = Inl e \<longleftrightarrow> m = Inl e \<or> (\<exists>x. m = Inr x \<and> f x = Inl e)"
  by (cases m) auto

lemma dict_getitem_Inr_iff: "dict_getitem d k = Inr v \<longleftrightarrow> map_of d k = Some v"
  by (simp add: dict_getitem_def split: option.splits)

lemma dict_getitem_Inl_iff: "dict_getitem d k = Inl e \<longleftrightarrow> map_of d k = None \<and> e = KeyError k"
  by (auto simp: dict_getitem_def split: option.splits)

lemma stride_kwargs_Inr_iff:
  "stride_kwargs name i oc = Inr kw \<longleftrightarrow>
     (if name = ''conv'' then i \<noteq> 0 \<and> kw = [(''stride'', oc div i)] else kw = [])"
  by (auto simp: stride_kwargs_def)

lemma stride_kwargs_Inl_iff:
  "stride_kwargs name i oc = Inl e \<longleftrightarrow> name = ''conv'' \<and> i = 0 \<and> e = ZeroDivisionError"
  by (auto simp: stride_kwargs_def)

section \<open>Lemmas about the encoder's loops\<close>

lemma encoder_block_list_Inr_iff:
  "encoder_block_list n2f i oc names = Inr bl \<longleftrightarrow>
     (\<forall>name \<in> set names. map_of n2f name \<noteq> None) \<and> (''conv'' \<in> set names \<longrightarrow> i \<noteq> 0) \<and>
     bl = map (encoder_entry n2f i oc) names"
proof (induction names arbitrary: bl)
  case Nil
  show ?case by auto
next
  case (Cons name names)
  show ?case
    by (auto simp: bind_err_Inr_iff stride_kwargs_Inr_iff dict_getitem_Inr_iff Cons.IH
        encoder_entry_def)
qed

lemma encoder_block_list_Inl:
  "encoder_block_list n2f i oc names = Inl e \<Longrightarrow>
     (e = ZeroDivisionError \<and> ''conv'' \<in> set names \<and> i = 0) \<or>
     (\<exists>name \<in> set names. map_of n2f name = None \<and> e = KeyError name)"
proof (induction names)
  case Nil
  then show ?case by simp
next
  case (Cons name names)
  then show ?case
    by (auto simp: bind_err_Inl_iff stride_kwargs_Inl_iff dict_getitem_Inl_iff)
qed

lemma encoder_blocks_Inr_iff:
  "encoder_blocks n2f order residual i chs = Inr blocks \<longleftrightarrow>
     (\<forall>ch \<in> set chs. block_ok n2f order (fst ch)) \<and>
     blocks = map (\<lambda>(k, ch). encoder_block n2f order residual k ch) (zip [i..<i + length chs] chs)"
proof (induction chs arbitrary: i blocks)
  case Nil
  show ?case by auto
next
  case (Cons ch chs)
  obtain a b where ch: "ch = (a, b)" by (cases ch)
  have upt: "[i..<Suc (i + length chs)] = i # [Suc i..<Suc (i + length chs)]"
    by (rule upt_conv_Cons) simp
  show ?case
    unfolding ch
    by (auto simp: bind_err_Inr_iff encoder_block_list_Inr_iff Cons.IH encoder_block_def
        block_ok_def upt simp del: upt_Suc)
qed

lemma encoder_blocks_Inl:
  "encoder_blocks n2f order residual i chs = Inl e \<Longrightarrow>
     (e = ZeroDivisionError \<and> ''conv'' \<in> set order \<and> (\<exists>ch \<in> set chs. fst ch = 0)) \<or>
     (\<exists>name \<in> set order. map_of n2f name = None \<and> e = KeyError name)"
proof (induction chs arbitrary: i)
  case Nil
  then show ?case by simp
next
  case (Cons ch chs)
  obtain a b where ch: "ch = (a, b)" by (cases ch)
  from Cons.prems consider
      (here) "encoder_block_list n2f a b order = Inl e"
    | (later) "encoder_blocks n2f order residual (Suc i) chs = Inl e"
    by (auto simp: ch bind_err_Inl_iff)
  then show ?case
  proof cases
    case here
    from encoder_block_list_Inl [OF here] show ?thesis by (auto simp: ch)
  next
    case later
    from Cons.IH [OF later] show ?thesis by auto
  qed
qed

lemma list_getitem_0: "list_getitem xs 0 = (if xs = [] then Inl IndexError else Inr (xs ! 0))"
  by (simp add: list_getitem_def)

lemma list_getitem_1: "list_getitem xs 1 = (if length xs < 2 then Inl IndexError else Inr (xs ! 1))"
  by (auto simp: list_getitem_def)

lemma list_getitem_last:
  "list_getitem xs (- 1) = (if xs = [] then Inl IndexError else Inr (last xs))"
proof (cases "xs = []")
  case True
  then show ?thesis by (simp add: list_getitem_def)
next
  case False
  then have "nat (int (length xs) + - 1) = length xs - 1" by (cases xs) auto
  with False show ?thesis
    by (cases xs) (auto simp: list_getitem_def last_conv_nth simp del: last.simps)
qed

lemma length_pairwise: "length (pairwise xs) = length xs - 1"
  by (simp add: pairwise_def)

lemma nth_pairwise: "Suc k < length xs \<Longrightarrow> pairwise xs ! k = (xs ! k, xs ! Suc k)"
  by (simp add: pairwise_def nth_tl)

lemma encoder_blocks_keys:
  "map fst (map (\<lambda>(k, ch). encoder_block n2f order residual k ch) (zip [i..<i + length chs] chs))
     = map block_name [i..<i + length chs]"
  by (rule nth_equalityI) (auto simp: encoder_block_def)

lemma distinct_block_names: "distinct (map block_name [i..<j])"
  by (simp add: distinct_map inj_on_def block_name_inj)

lemma StridedConvEncoder_init_Inr_iff:
  "StridedConvEncoder_init layers order conv norm activation residual = Inr self \<longleftrightarrow>
     2 \<le> length layers \<and>
     (\<forall>ch \<in> set (pairwise (drop 1 layers)).
        block_ok (encoder_name2fn conv norm activation) order (fst ch)) \<and>
     self = \<lparr>layers_attr = layers,
             enc_net = Sequential (stem conv activation layers #
               map (\<lambda>(k, ch). encoder_block (encoder_name2fn conv norm activation) order residual k ch)
                 (zip [1..<length layers - 1] (pairwise (drop 1 layers))))\<rparr>"
proof -
  let ?n2f = "encoder_name2fn conv norm activation"
  let ?chs = "pairwise (drop 1 layers)"
  let ?blocks = "map (\<lambda>(k, ch). encoder_block ?n2f order residual k ch) (zip [1..<1 + length ?chs] ?chs)"
  have conv: "dict_getitem ?n2f ''conv'' = Inr (Some conv)"
    and act: "dict_getitem ?n2f ''activation'' = Inr (Some activation)"
    by (simp_all add: dict_getitem_def encoder_name2fn_def)
  have od1: "OrderedDict [(''conv_0'', a), (''act'', b)] = [(''conv_0'', a), (''act'', b)]" for a b :: module
    by (rule OrderedDict_distinct) simp
  have notin: "''block_0'' \<notin> set (map block_name [1..<1 + length ?chs])"
    unfolding block_name_0 [symmetric] by (auto simp: block_name_inj)
  have od2: "OrderedDict ((''block_0'', m) # ?blocks) = (''block_0'', m) # ?blocks" for m
    apply (rule OrderedDict_distinct)
    using notin distinct_block_names [of 1 "1 + length ?chs"]
    by (simp only: list.map fst_conv encoder_blocks_keys distinct.simps) simp
  have len: "2 \<le> length layers \<Longrightarrow> 1 + length ?chs = length layers - 1"
    by (simp add: length_pairwise)
  show ?thesis
  proof (cases "2 \<le> length layers")
    case False
    then show ?thesis
      by (auto simp: StridedConvEncoder_init_def Let_def conv list_getitem_0 list_getitem_1)
  next
    case True
    then have ne: "layers \<noteq> []" and l2: "\<not> length layers < 2" by auto
    show ?thesis
      using True
      by (auto simp: StridedConvEncoder_init_def Let_def conv act list_getitem_0 list_getitem_1 ne l2
          bind_err_Inr_iff encoder_blocks_Inr_iff od1 od2 stem_def len [OF True, symmetric]
          simp del: One_nat_def)
  qed
qed

lemma encoder_net_nth:
  assumes "1 \<le> i" and "i < length layers - 1"
  shows "(st # map (\<lambda>(k, ch). encoder_block n2f order residual k ch)
            (zip [1..<length layers - 1] (pairwise (drop 1 layers)))) ! i
         = encoder_block n2f order residual i (layers ! i, layers ! Suc i)"
proof -
  obtain j where i: "i = Suc j" using assms(1) by (cases i) auto
  have len: "length (pairwise (drop 1 layers)) = length layers - 2"
    by (simp add: length_pairwise)
  have j: "j < length layers - 2" using assms(2) i by simp
  have "pairwise (drop 1 layers) ! j = (drop 1 layers ! j, drop 1 layers ! Suc j)"
    by (rule nth_pairwise) (use j in simp)
  also have "\<dots> = (layers ! i, layers ! Suc i)"
    using j i by simp
  finally have p: "pairwise (drop 1 layers) ! j = (layers ! i, layers ! Suc i)" .
  have "[1..<length layers - 1] ! j = i" using j i by simp
  with p j len show ?thesis by (simp add: i del: upt_Suc)
qed

lemma pair_in_pairwise:
  assumes "1 \<le> i" and "i < length layers - 1"
  shows "(layers ! i, layers ! Suc i) \<in> set (pairwise (drop 1 layers))"
proof -
  obtain j where i: "i = Suc j" using assms(1) by (cases i) auto
  have j: "j < length layers - 2" using assms(2) i by simp
  have "pairwise (drop 1 layers) ! j = (drop 1 layers ! j, drop 1 layers ! Suc j)"
    by (rule nth_pairwise) (use j in simp)
  then have p: "pairwise (drop 1 layers) ! j = (layers ! i, layers ! Suc i)"
    using j i by simp
  have "j < length (pairwise (drop 1 layers))" using j by (simp add: length_pairwise)
  then have "pairwise (drop 1 layers) ! j \<in> set (pairwise (drop 1 layers))" by (rule nth_mem)
  with p show ?thesis by simp
qed

lemma map_of_keyed: "map_of (map (\<lambda>n. (n, g n)) xs) k = (if k \<in> set xs then Some (g k) else None)"
  by (induction xs) auto

lemma map_of_OrderedDict_entries:
  "map_of (OrderedDict (map (encoder_entry n2f a b) order)) k =
     (if k \<in> set order then Some (snd (encoder_entry n2f a b k)) else None)"
proof -
  have e: "encoder_entry n2f a b = (\<lambda>n. (n, snd (encoder_entry n2f a b n)))"
    by (simp add: encoder_entry_def fun_eq_iff)
  have "map_of (OrderedDict (map (encoder_entry n2f a b) order)) k
        = map_of (map (\<lambda>n. (n, snd (encoder_entry n2f a b n))) (rev order)) k"
    by (subst e) (simp add: map_of_OrderedDict rev_map)
  then show ?thesis by (simp add: map_of_keyed)
qed

lemma encoder_entry_conv:
  "snd (encoder_entry (encoder_name2fn conv norm activation) a b ''conv'')
     = Layer conv [a, b] [(''stride'', b div a)]"
  by (simp add: encoder_entry_def encoder_name2fn_def)

lemma encoder_name2fn_bound:
  "map_of (encoder_name2fn conv norm activation) name \<noteq> None \<longleftrightarrow>
     name = ''activation'' \<or> name = ''conv'' \<or> name = ''norm''"
  by (simp add: encoder_name2fn_def)

lemma block_entries_conv:
  assumes "''conv'' \<in> set layer_order"
  shows "map_of (OrderedDict (map (encoder_entry (encoder_name2fn conv norm activation) a b) layer_order))
           ''conv'' = Some (Layer conv [a, b] [(''stride'', b div a)])"
  using assms by (simp add: map_of_OrderedDict_entries encoder_entry_conv)

lemma StridedConvEncoder_init_no_ConfigurationError:
  "StridedConvEncoder_init layers layer_order conv norm activation residual \<noteq> Inl ConfigurationError"
proof
  let ?n2f = "encoder_name2fn conv norm activation"
  assume a: "StridedConvEncoder_init layers layer_order conv norm activation residual
              = Inl ConfigurationError"
  have conv: "dict_getitem ?n2f ''conv'' = Inr (Some conv)"
    and act: "dict_getitem ?n2f ''activation'' = Inr (Some activation)"
    by (simp_all add: dict_getitem_def encoder_name2fn_def)
  from a have "encoder_blocks ?n2f layer_order residual 1 (pairwise (drop 1 layers))
                 = Inl ConfigurationError"
    by (auto simp: StridedConvEncoder_init_def Let_def conv act list_getitem_0 list_getitem_1
        bind_err_Inl_iff split: if_splits)
  from encoder_blocks_Inl [OF this] show False by auto
qed

lemma StridedConvEncoder_init_succeeds:
  assumes "2 \<le> length layers"
    and "\<forall>name \<in> set layer_order. map_of (encoder_name2fn conv norm activation) name \<noteq> None"
    and "''conv'' \<in> set layer_order \<longrightarrow> (\<forall>k. 1 \<le> k \<and> k < length layers - 1 \<longrightarrow> layers ! k \<noteq> 0)"
  shows "\<exists>self. StridedConvEncoder_init layers layer_order conv norm activation residual = Inr self"
proof -
  let ?n2f = "encoder_name2fn conv norm activation"
  have "block_ok ?n2f layer_order (fst ch)" if ch: "ch \<in> set (pairwise (drop 1 layers))" for ch
  proof -
    from ch obtain j where j: "j < length (pairwise (drop 1 layers))"
      and chj: "ch = pairwise (drop 1 layers) ! j"
      by (auto simp: in_set_conv_nth)
    from j have j2: "j < length layers - 2" by (simp add: length_pairwise)
    have "pairwise (drop 1 layers) ! j = (drop 1 layers ! j, drop 1 layers ! Suc j)"
      by (rule nth_pairwise) (use j2 in simp)
    with chj j2 have f: "fst ch = layers ! Suc j" by simp
    have "''conv'' \<in> set layer_order \<longrightarrow> layers ! Suc j \<noteq> 0"
      using assms(3) j2 by auto
    with assms(2) f show ?thesis
      by (simp add: block_ok_def)
  qed
  with assms(1) show ?thesis by (simp add: StridedConvEncoder_init_Inr_iff)
qed

lemma encoder_block_list_unregistered:
  assumes "\<forall>m \<in> set pre. map_of n2f m \<noteq> None" and "map_of n2f name = None"
  shows "encoder_block_list n2f a b (pre @ name # post) =
           Inl (if a = 0 \<and> ''conv'' \<in> set (pre @ [name]) then ZeroDivisionError else KeyError name)"
  using assms
proof (induction pre)
  case Nil
  then show ?case by (auto simp: stride_kwargs_def dict_getitem_def)
next
  case (Cons m pre)
  then obtain f where f: "map_of n2f m = Some f" by auto
  from Cons have ih: "encoder_block_list n2f a b (pre @ name # post) =
           Inl (if a = 0 \<and> ''conv'' \<in> set (pre @ [name]) then ZeroDivisionError else KeyError name)"
    by simp
  show ?case
    by (auto simp: ih stride_kwargs_def dict_getitem_def f)
qed

lemma pairwise_drop_first:
  assumes "3 \<le> length layers"
  shows "\<exists>rest. pairwise (drop 1 layers) = (layers ! 1, layers ! 2) # rest"
proof -
  from assms obtain a b c r where "layers = a # b # c # r"
    by (cases layers; cases "tl layers"; cases "tl (tl layers)") auto
  then show ?thesis by (simp add: pairwise_def)
qed

section \<open>Lemmas about the head's loops\<close>

lemma head_block_Inr_iff:
  "head_block n2f a b names = Inr ms \<longleftrightarrow>
     (\<forall>name \<in> set names. map_of n2f name \<noteq> None) \<and> ms = map (head_entry n2f (a, b)) names"
proof (induction names arbitrary: ms)
  case Nil
  show ?case by auto
next
  case (Cons name names)
  show ?case
    by (auto simp: bind_err_Inr_iff dict_getitem_Inr_iff Cons.IH head_entry_def)
qed

lemma head_block_unregistered:
  assumes "\<forall>m \<in> set pre. map_of n2f m \<noteq> None" and "map_of n2f name = None"
  shows "head_block n2f a b (pre @ name # post) = Inl (KeyError name)"
  using assms
proof (induction pre)
  case Nil
  then show ?case by (simp add: dict_getitem_def)
next
  case (Cons m pre)
  then obtain f where f: "map_of n2f m = Some f" by auto
  from Cons have ih: "head_block n2f a b (pre @ name # post) = Inl (KeyError name)" by simp
  show ?case by (simp add: ih dict_getitem_def f)
qed

lemma head_blocks_Inr_iff:
  "head_blocks n2f order pairs = Inr ms \<longleftrightarrow>
     (pairs \<noteq> [] \<longrightarrow> (\<forall>name \<in> set order. map_of n2f name \<noteq> None)) \<and>
     ms = concat (map (\<lambda>ch. map (head_entry n2f ch) order) pairs)"
proof (induction pairs arbitrary: ms)
  case Nil
  show ?case by auto
next
  case (Cons ch pairs)
  obtain a b where ch: "ch = (a, b)" by (cases ch)
  show ?case
    unfolding ch by (auto simp: bind_err_Inr_iff head_block_Inr_iff Cons.IH)
qed

lemma head_latent_alt:
  "(if latent_channels = None \<or> latent_channels = Some [] then [] else the latent_channels)
     = head_latent latent_channels"
  by (cases latent_channels) (auto simp: head_latent_def)

lemma pairwise_channels:
  "pairwise (a # xs @ [b]) \<noteq> [] \<and> length (butlast (pairwise (a # xs @ [b]))) = length xs \<and>
   last (pairwise (a # xs @ [b])) = (last (a # xs), b)"
proof (induction xs arbitrary: a)
  case Nil
  show ?case by (simp add: pairwise_def)
next
  case (Cons x xs)
  have p: "pairwise (a # (x # xs) @ [b]) = (a, x) # pairwise (x # xs @ [b])"
    by (simp add: pairwise_def)
  from Cons [of x] show ?case unfolding p by simp
qed

lemma LinearHead_init_Inr_iff:
  "LinearHead_init head_in head_out latent_channels layer_order linear activation norm dropout = Inr self \<longleftrightarrow>
     (head_latent latent_channels \<noteq> [] \<longrightarrow>
        (\<forall>name \<in> set layer_order. map_of (head_name2fn linear activation norm dropout) name \<noteq> None)) \<and>
     self = \<lparr>head_net = SequentialArgs
       (concat (map (\<lambda>ch. map (head_entry (head_name2fn linear activation norm dropout) ch) layer_order)
          (butlast (pairwise (head_in # head_latent latent_channels @ [head_out]))))
        @ [Layer linear [last (head_in # head_latent latent_channels), head_out] []])\<rparr>"
proof -
  let ?n2f = "head_name2fn linear activation norm dropout"
  let ?pairs = "pairwise (head_in # head_latent latent_channels @ [head_out])"
  have lin: "dict_getitem ?n2f ''linear'' = Inr (Some linear)"
    by (simp add: dict_getitem_def head_name2fn_def)
  note pc = pairwise_channels [of head_in "head_latent latent_channels" head_out]
  have get: "list_getitem ?pairs (- 1) = Inr (last (head_in # head_latent latent_channels), head_out)"
    using pc by (simp add: list_getitem_last)
  have ne: "butlast ?pairs \<noteq> [] \<longleftrightarrow> head_latent latent_channels \<noteq> []"
    using pc by (metis length_0_conv)
  show ?thesis
    unfolding LinearHead_init_def Let_def head_latent_alt
    by (auto simp: bind_err_Inr_iff head_blocks_Inr_iff lin get ne simp del: last.simps)
qed

lemma head_name2fn_bound:
  "map_of (head_name2fn linear activation norm dropout) name \<noteq> None \<longleftrightarrow>
     name = ''activation'' \<or> name = ''dropout'' \<or> name = ''linear'' \<or> name = ''norm''"
  by (simp add: head_name2fn_def)

lemma length_filter_concat:
  "length (filter P (concat xss)) = sum_list (map (\<lambda>xs. length (filter P xs)) xss)"
  by (induction xss) auto

lemma sum_list_const: "(\<forall>x \<in> set xs. f x = (c::nat)) \<Longrightarrow> sum_list (map f xs) = length xs * c"
  by (induction xs) auto

lemma count_head_entries:
  assumes reg: "\<forall>name \<in> set layer_order. map_of n2f name \<noteq> None"
    and lin: "map_of n2f ''linear'' = Some (Some linear)"
    and other: "\<forall>name \<in> set layer_order. name \<noteq> ''linear'' \<longrightarrow> map_of n2f name \<noteq> Some (Some linear)"
  shows "length (filter (is_layer_of linear) (map (head_entry n2f ch) layer_order))
           = count_list layer_order ''linear''"
  using reg other
proof (induction layer_order)
  case Nil
  show ?case by simp
next
  case (Cons name names)
  from Cons.prems obtain v where v: "map_of n2f name = Some v" by auto
  have here: "is_layer_of linear (head_entry n2f ch name) \<longleftrightarrow> name = ''linear''"
  proof (cases "name = ''linear''")
    case True
    then show ?thesis by (simp add: head_entry_def lin)
  next
    case False
    with Cons.prems v have "v \<noteq> Some linear" by auto
    with False v show ?thesis by (cases v) (auto simp: head_entry_def)
  qed
  from Cons show ?case by (simp add: here)
qed

section \<open>Lemmas about the classifier's log\<close>

lemma count_NetInit_forward:
  "count_list (snd (VGGConv_forward run self x log)) NetInit = count_list log NetInit"
  by (simp add: VGGConv_forward_def split: sum.splits)

lemma count_NetInit_forwards:
  "count_list (VGGConv_forwards run self xs log) NetInit = count_list log NetInit"
  by (induction xs arbitrary: log) (simp_all add: count_NetInit_forward)

lemma forward_extends_log: "\<exists>calls. snd (VGGConv_forward run self x log) = log @ calls"
  by (simp add: VGGConv_forward_def split: sum.splits)

lemma forwards_extends_log: "\<exists>calls. VGGConv_forwards run self xs log = log @ calls"
proof (induction xs arbitrary: log)
  case Nil
  show ?case by simp
next
  case (Cons x xs)
  obtain c1 where c1: "snd (VGGConv_forward run self x log) = log @ c1"
    using forward_extends_log by blast
  obtain c2 where "VGGConv_forwards run self xs (log @ c1) = (log @ c1) @ c2"
    using Cons.IH by blast
  with c1 show ?case by simp
qed

section \<open>Lemmas about views\<close>










section \<open>Claims about StridedConvEncoder\<close>

text \<open>
  C2: for every channel schedule of length at least 2 that the constructor accepts, the
  property \<open>in_channels\<close> returns the first element of the schedule and the property
  \<open>out_channels\<close> returns its last element.
\<close>

theorem in_out_channels_of_schedule:
  assumes "StridedConvEncoder_init layers layer_order conv norm activation residual = Inr self"
    and "2 \<le> length layers"
  shows "in_channels self = Inr (layers ! 0) \<and> out_channels self = Inr (last layers)"
proof -
  from assms(1) have "layers_attr self = layers"
    by (auto simp: StridedConvEncoder_init_Inr_iff)
  moreover from assms(2) have "layers \<noteq> []" by auto
  ultimately show ?thesis
    by (simp add: in_channels_def out_channels_def list_getitem_0 list_getitem_last)
qed

theorem in_out_channels_witness:
  "\<exists>self. StridedConvEncoder_init [3, 64, 128, 128, 256, 256, 512, 512]
             [''conv'', ''norm'', ''activation'']
             (Factory ''Conv2d'') (Some (Factory ''BatchNorm2d'')) (Factory ''LeakyReLU'') None
           = Inr self \<and> in_channels self = Inr 3 \<and> out_channels self = Inr 512"
proof -
  let ?r = "StridedConvEncoder_init [3, 64, 128, 128, 256, 256, 512, 512]
             [''conv'', ''norm'', ''activation'']
             (Factory ''Conv2d'') (Some (Factory ''BatchNorm2d'')) (Factory ''LeakyReLU'') None"
  have "\<not> isl ?r" by code_simp
  then obtain self where s: "?r = Inr self" by (cases ?r) auto
  have l: "2 \<le> length [3, 64, 128, 128, 256, 256, 512, 512 :: int]" by simp
  from in_out_channels_of_schedule [OF s l] s show ?thesis by simp
qed

text \<open>
  C7: in every constructed encoder, block 0 (the stem) is exactly a conv layer from
  \<open>layers[0]\<close> to \<open>layers[1]\<close>, called without keyword arguments (so without a stride),
  followed by an activation layer; there is no normalisation layer, whatever the layer
  order is.
\<close>

theorem stem_block_shape:
  assumes "StridedConvEncoder_init layers layer_order conv norm activation residual = Inr self"
  shows "2 \<le> length layers \<and>
         (\<exists>rest. enc_net self =
            Sequential ((''block_0'',
                         Sequential [(''conv_0'', Layer conv [layers ! 0, layers ! 1] []),
                                     (''act'', Layer activation [] [])]) # rest))"
  using assms by (auto simp: StridedConvEncoder_init_Inr_iff stem_def)

theorem stem_block_witness:
  "\<exists>self rest. StridedConvEncoder_init [3, 64, 128] [''norm'']
             (Factory ''Conv2d'') (Some (Factory ''BatchNorm2d'')) (Factory ''LeakyReLU'') None
           = Inr self \<and>
           enc_net self = Sequential ((''block_0'',
              Sequential [(''conv_0'', Layer (Factory ''Conv2d'') [3, 64] []),
                          (''act'', Layer (Factory ''LeakyReLU'') [] [])]) # rest)"
proof -
  let ?r = "StridedConvEncoder_init [3, 64, 128] [''norm'']
             (Factory ''Conv2d'') (Some (Factory ''BatchNorm2d'')) (Factory ''LeakyReLU'') None"
  have "\<not> isl ?r" by code_simp
  then obtain self where s: "?r = Inr self" by (cases ?r) auto
  from stem_block_shape [OF s] s show ?thesis by simp
qed

text \<open>
  C3: in every constructed encoder, the non-stem block \<open>i\<close> (built from the channels
  \<open>layers[i]\<close> and \<open>layers[i+1]\<close>) is the assembled block wrapped by the residual factory
  if and only if a residual factory was given and \<open>layers[i] = layers[i+1]\<close>; otherwise
  it is the assembled block itself.
\<close>

theorem residual_wrapping_iff:
  assumes "StridedConvEncoder_init layers layer_order conv norm activation residual = Inr self"
    and "1 \<le> i" and "i < length layers - 1"
  shows "\<exists>blocks block_list.
           enc_net self = Sequential blocks \<and> length blocks = length layers - 1 \<and>
           encoder_block_list (encoder_name2fn conv norm activation) (layers ! i) (layers ! Suc i)
             layer_order = Inr block_list \<and>
           blocks ! i =
             (block_name i,
              if residual \<noteq> None \<and> layers ! i = layers ! Suc i
              then Wrapped (the residual) (Sequential (OrderedDict block_list))
              else Sequential (OrderedDict block_list)) \<and>
           (is_wrapped (snd (blocks ! i)) \<longleftrightarrow> residual \<noteq> None \<and> layers ! i = layers ! Suc i)"
proof -
  let ?n2f = "encoder_name2fn conv norm activation"
  let ?blocks = "stem conv activation layers #
     map (\<lambda>(k, ch). encoder_block ?n2f layer_order residual k ch)
       (zip [1..<length layers - 1] (pairwise (drop 1 layers)))"
  let ?bl = "map (encoder_entry ?n2f (layers ! i) (layers ! Suc i)) layer_order"
  from assms(1) have len2: "2 \<le> length layers"
    and ok: "\<forall>ch \<in> set (pairwise (drop 1 layers)). block_ok ?n2f layer_order (fst ch)"
    and net: "enc_net self = Sequential ?blocks"
    by (auto simp: StridedConvEncoder_init_Inr_iff)
  have l: "length ?blocks = length layers - 1"
    using len2 by (simp add: length_pairwise)
  from ok pair_in_pairwise [OF assms(2,3)] have "block_ok ?n2f layer_order (layers ! i)"
    by fastforce
  then have bl: "encoder_block_list ?n2f (layers ! i) (layers ! Suc i) layer_order = Inr ?bl"
    by (simp add: encoder_block_list_Inr_iff block_ok_def)
  have nth: "?blocks ! i = (block_name i,
              if residual \<noteq> None \<and> layers ! i = layers ! Suc i
              then Wrapped (the residual) (Sequential (OrderedDict ?bl))
              else Sequential (OrderedDict ?bl))"
    by (simp only: encoder_net_nth [OF assms(2,3)]) (simp add: encoder_block_def add_residual_def)
  have w: "is_wrapped (snd (?blocks ! i)) \<longleftrightarrow> residual \<noteq> None \<and> layers ! i = layers ! Suc i"
    by (simp only: nth) simp
  from net l bl nth w show ?thesis by blast
qed

theorem residual_wrapping_witness:
  "\<exists>self blocks.
     StridedConvEncoder_init [3, 64, 64, 128] [''conv'', ''norm'', ''activation'']
       (Factory ''Conv2d'') (Some (Factory ''BatchNorm2d'')) (Factory ''LeakyReLU'')
       (Some (Factory ''ResidualModule'')) = Inr self \<and>
     enc_net self = Sequential blocks \<and> is_wrapped (snd (blocks ! 1)) \<and> \<not> is_wrapped (snd (blocks ! 2))"
proof -
  let ?layers = "[3, 64, 64, 128] :: int list"
  let ?r = "StridedConvEncoder_init ?layers [''conv'', ''norm'', ''activation'']
       (Factory ''Conv2d'') (Some (Factory ''BatchNorm2d'')) (Factory ''LeakyReLU'')
       (Some (Factory ''ResidualModule''))"
  have "\<not> isl ?r" by code_simp
  then obtain self where s: "?r = Inr self" by (cases ?r) auto
  have i1: "(1::nat) \<le> 1" "1 < length ?layers - 1" by simp_all
  have i2: "(1::nat) \<le> 2" "2 < length ?layers - 1" by simp_all
  from residual_wrapping_iff [OF s i1] residual_wrapping_iff [OF s i2] s
  show ?thesis by auto
qed

text \<open>
  C6, as the code has it: a channel schedule with fewer than 2 entries makes the
  constructor raise \<open>IndexError\<close> (from \<^verbatim>\<open>self._layers[0]\<close> or \<^verbatim>\<open>self._layers[1]\<close>)
  while the stem is assembled.
\<close>

theorem short_schedule_IndexError:
  assumes "length layers < 2"
  shows "StridedConvEncoder_init layers layer_order conv norm activation residual = Inl IndexError"
proof -
  have conv: "dict_getitem (encoder_name2fn conv norm activation) ''conv'' = Inr (Some conv)"
    by (simp add: dict_getitem_def encoder_name2fn_def)
  from assms show ?thesis
    by (simp add: StridedConvEncoder_init_def Let_def conv list_getitem_0 list_getitem_1)
qed

theorem short_schedule_witness:
  "length ([] :: int list) < 2 \<and>
   StridedConvEncoder_init [] [''conv'', ''norm'', ''activation'']
     (Factory ''Conv2d'') (Some (Factory ''BatchNorm2d'')) (Factory ''LeakyReLU'') None
   = Inl IndexError"
proof -
  have l: "length ([] :: int list) < 2" by simp
  from short_schedule_IndexError [OF l] l show ?thesis by simp
qed

text \<open>
  The schedule \<open>[64]\<close> has fewer than 2 entries, and the exception is not
  \<open>ConfigurationError\<close>.
\<close>

theorem short_schedule_counterexample:
  "length [64 :: int] < 2 \<and>
   StridedConvEncoder_init [64] [''conv'', ''norm'', ''activation'']
     (Factory ''Conv2d'') (Some (Factory ''BatchNorm2d'')) (Factory ''LeakyReLU'') None
   = Inl IndexError \<and>
   StridedConvEncoder_init [64] [''conv'', ''norm'', ''activation'']
     (Factory ''Conv2d'') (Some (Factory ''BatchNorm2d'')) (Factory ''LeakyReLU'') None
   \<noteq> Inl ConfigurationError"
  by code_simp

text \<open>
  C1, as the code has it: no configuration makes the constructor raise
  \<open>ConfigurationError\<close>. When the constructor returns and the layer order contains
  \<open>conv\<close>, every non-stem block \<open>i\<close> has a nonzero \<open>in_ch = layers[i]\<close> and its conv layer
  was created with \<open>stride = layers[i+1] // layers[i]\<close>, the floor of the quotient, whether
  or not \<open>layers[i+1]\<close> is a multiple of \<open>layers[i]\<close>.
\<close>

theorem stride_is_floor_quotient:
  "StridedConvEncoder_init layers layer_order conv norm activation residual \<noteq> Inl ConfigurationError \<and>
   (\<forall>self i.
      StridedConvEncoder_init layers layer_order conv norm activation residual = Inr self \<and>
      1 \<le> i \<and> i < length layers - 1 \<and> ''conv'' \<in> set layer_order \<longrightarrow>
      layers ! i \<noteq> 0 \<and>
      (\<exists>blocks entries.
         enc_net self = Sequential blocks \<and>
         blocks ! i = (block_name i,
           add_residual residual (layers ! i) (layers ! Suc i) (Sequential entries)) \<and>
         map_of entries ''conv'' =
           Some (Layer conv [layers ! i, layers ! Suc i]
                   [(''stride'', layers ! Suc i div layers ! i)])))"
proof (intro conjI allI impI)
  show "StridedConvEncoder_init layers layer_order conv norm activation residual
          \<noteq> Inl ConfigurationError"
    by (rule StridedConvEncoder_init_no_ConfigurationError)
next
  fix self i
  let ?n2f = "encoder_name2fn conv norm activation"
  let ?blocks = "stem conv activation layers #
     map (\<lambda>(k, ch). encoder_block ?n2f layer_order residual k ch)
       (zip [1..<length layers - 1] (pairwise (drop 1 layers)))"
  let ?entries = "OrderedDict (map (encoder_entry ?n2f (layers ! i) (layers ! Suc i)) layer_order)"
  assume a: "StridedConvEncoder_init layers layer_order conv norm activation residual = Inr self \<and>
      1 \<le> i \<and> i < length layers - 1 \<and> ''conv'' \<in> set layer_order"
  then have i: "1 \<le> i" "i < length layers - 1" and c: "''conv'' \<in> set layer_order" by auto
  from a have ok: "\<forall>ch \<in> set (pairwise (drop 1 layers)). block_ok ?n2f layer_order (fst ch)"
    and net: "enc_net self = Sequential ?blocks"
    by (auto simp: StridedConvEncoder_init_Inr_iff)
  from ok pair_in_pairwise [OF i] have "block_ok ?n2f layer_order (layers ! i)"
    by fastforce
  with c show "layers ! i \<noteq> 0" by (simp add: block_ok_def)
  have nth: "?blocks ! i = (block_name i,
      add_residual residual (layers ! i) (layers ! Suc i) (Sequential ?entries))"
    by (simp only: encoder_net_nth [OF i]) (simp add: encoder_block_def)
  from net nth block_entries_conv [OF c]
  show "\<exists>blocks entries.
         enc_net self = Sequential blocks \<and>
         blocks ! i = (block_name i,
           add_residual residual (layers ! i) (layers ! Suc i) (Sequential entries)) \<and>
         map_of entries ''conv'' =
           Some (Layer conv [layers ! i, layers ! Suc i]
                   [(''stride'', layers ! Suc i div layers ! i)])"
    by blast
qed

theorem stride_is_floor_quotient_witness:
  "\<exists>self blocks entries.
     StridedConvEncoder_init [3, 64, 100] [''conv'', ''norm'', ''activation'']
       (Factory ''Conv2d'') (Some (Factory ''BatchNorm2d'')) (Factory ''LeakyReLU'') None = Inr self \<and>
     enc_net self = Sequential blocks \<and>
     blocks ! 1 = (''block_1'', Sequential entries) \<and>
     map_of entries ''conv'' = Some (Layer (Factory ''Conv2d'') [64, 100] [(''stride'', 1)])"
proof -
  let ?layers = "[3, 64, 100] :: int list"
  let ?order = "[''conv'', ''norm'', ''activation'']"
  let ?r = "StridedConvEncoder_init ?layers ?order
       (Factory ''Conv2d'') (Some (Factory ''BatchNorm2d'')) (Factory ''LeakyReLU'') None"
  have "\<not> isl ?r" by code_simp
  then obtain self where s: "?r = Inr self" by (cases ?r) auto
  have h: "?r = Inr self \<and> (1::nat) \<le> 1 \<and> 1 < length ?layers - 1 \<and> ''conv'' \<in> set ?order"
    using s by simp
  have b: "block_name 1 = ''block_1''" by code_simp
  from stride_is_floor_quotient [where layers = ?layers and layer_order = ?order
      and conv = "Factory ''Conv2d''" and norm = "Some (Factory ''BatchNorm2d'')"
      and activation = "Factory ''LeakyReLU''" and residual = None] h
  obtain blocks entries where "enc_net self = Sequential blocks"
    and "blocks ! 1 = (block_name 1, add_residual None (?layers ! 1) (?layers ! Suc 1) (Sequential entries))"
    and "map_of entries ''conv'' = Some (Layer (Factory ''Conv2d'') [?layers ! 1, ?layers ! Suc 1]
                   [(''stride'', ?layers ! Suc 1 div ?layers ! 1)])"
    by blast
  with s b show ?thesis by (auto simp: add_residual_def)
qed

text \<open>
  The schedule \<open>(3, 64, 100)\<close> with the default layer order: 100 is not a multiple of 64,
  and the constructor returns an encoder whose second block has a conv layer with stride
  \<open>100 // 64 = 1\<close>.
\<close>

theorem non_multiple_counterexample:
  "(100 :: int) mod 64 \<noteq> 0 \<and> ''conv'' \<in> set [''conv'', ''norm'', ''activation''] \<and>
   StridedConvEncoder_init [3, 64, 100] [''conv'', ''norm'', ''activation'']
     (Factory ''Conv2d'') (Some (Factory ''BatchNorm2d'')) (Factory ''LeakyReLU'') None
   = Inr \<lparr>layers_attr = [3, 64, 100],
          enc_net = Sequential
            [(''block_0'', Sequential
               [(''conv_0'', Layer (Factory ''Conv2d'') [3, 64] []),
                (''act'', Layer (Factory ''LeakyReLU'') [] [])]),
             (''block_1'', Sequential
               [(''conv'', Layer (Factory ''Conv2d'') [64, 100] [(''stride'', 1)]),
                (''norm'', Layer (Factory ''BatchNorm2d'') [64, 100] []),
                (''activation'', Layer (Factory ''LeakyReLU'') [64, 100] [])])]\<rparr>"
  by code_simp

text \<open>
  C10, as the code has it: let the non-stem pair \<open>(layers[i], layers[i+1])\<close> shrink,
  \<open>0 < layers[i+1] < layers[i]\<close>, and let the layer order contain \<open>conv\<close>. Then the
  inferred stride \<open>layers[i+1] // layers[i]\<close> is 0, and, in a configuration where nothing
  else raises (every role of the layer order is bound to a factory, no non-stem \<open>in_ch\<close> is
  zero), the constructor returns an encoder whose block \<open>i\<close> holds the conv layer created
  with \<open>stride = 0\<close>.
\<close>

theorem shrinking_pair_stride_zero:
  assumes "1 \<le> i" and "i < length layers - 1"
    and "0 < layers ! Suc i" and "layers ! Suc i < layers ! i"
    and "''conv'' \<in> set layer_order"
    and "\<forall>name \<in> set layer_order.
           \<exists>f. map_of (encoder_name2fn conv norm activation) name = Some (Some f)"
    and "\<forall>k. 1 \<le> k \<and> k < length layers - 1 \<longrightarrow> layers ! k \<noteq> 0"
  shows "layers ! Suc i div layers ! i = 0 \<and>
         (\<exists>self blocks entries.
            StridedConvEncoder_init layers layer_order conv norm activation residual = Inr self \<and>
            enc_net self = Sequential blocks \<and>
            blocks ! i = (block_name i, Sequential entries) \<and>
            map_of entries ''conv'' = Some (Layer conv [layers ! i, layers ! Suc i] [(''stride'', 0)]))"
proof -
  let ?n2f = "encoder_name2fn conv norm activation"
  let ?blocks = "stem conv activation layers #
     map (\<lambda>(k, ch). encoder_block ?n2f layer_order residual k ch)
       (zip [1..<length layers - 1] (pairwise (drop 1 layers)))"
  let ?entries = "OrderedDict (map (encoder_entry ?n2f (layers ! i) (layers ! Suc i)) layer_order)"
  have d: "layers ! Suc i div layers ! i = 0"
    using assms(3,4) by (simp add: div_pos_pos_trivial)
  have len: "2 \<le> length layers" using assms(1,2) by simp
  from assms(6) have reg: "\<forall>name \<in> set layer_order. map_of ?n2f name \<noteq> None"
    by fastforce
  from StridedConvEncoder_init_succeeds [OF len reg, of residual] assms(7)
  obtain self where s: "StridedConvEncoder_init layers layer_order conv norm activation residual = Inr self"
    by blast
  then have net: "enc_net self = Sequential ?blocks"
    by (auto simp: StridedConvEncoder_init_Inr_iff)
  have ne: "layers ! i \<noteq> layers ! Suc i" using assms(4) by simp
  have nth: "?blocks ! i = (block_name i, Sequential ?entries)"
    by (simp only: encoder_net_nth [OF assms(1,2)]) (simp add: encoder_block_def add_residual_def ne)
  from block_entries_conv [OF assms(5), of conv norm activation "layers ! i" "layers ! Suc i"] d
  have e: "map_of ?entries ''conv'' = Some (Layer conv [layers ! i, layers ! Suc i] [(''stride'', 0)])"
    by simp
  from d s net nth e show ?thesis by blast
qed

theorem shrinking_pair_witness:
  "\<exists>self blocks entries.
     StridedConvEncoder_init [3, 64, 32] [''conv'', ''norm'', ''activation'']
       (Factory ''Conv2d'') (Some (Factory ''BatchNorm2d'')) (Factory ''LeakyReLU'') None = Inr self \<and>
     enc_net self = Sequential blocks \<and>
     blocks ! 1 = (''block_1'', Sequential entries) \<and>
     map_of entries ''conv'' = Some (Layer (Factory ''Conv2d'') [64, 32] [(''stride'', 0)])"
proof -
  let ?layers = "[3, 64, 32] :: int list"
  let ?order = "[''conv'', ''norm'', ''activation'']"
  have i: "(1::nat) \<le> 1" "1 < length ?layers - 1" by simp_all
  have sh: "0 < ?layers ! Suc 1" "?layers ! Suc 1 < ?layers ! 1" by simp_all
  have c: "''conv'' \<in> set ?order" by simp
  have roles: "\<forall>name \<in> set ?order.
      \<exists>f. map_of (encoder_name2fn (Factory ''Conv2d'') (Some (Factory ''BatchNorm2d''))
             (Factory ''LeakyReLU'')) name = Some (Some f)"
    by (simp add: encoder_name2fn_def)
  have nz: "\<forall>k. 1 \<le> k \<and> k < length ?layers - 1 \<longrightarrow> ?layers ! k \<noteq> 0"
  proof (intro allI impI)
    fix k :: nat
    assume "1 \<le> k \<and> k < length ?layers - 1"
    then have "k = 1" by simp
    then show "?layers ! k \<noteq> 0" by simp
  qed
  have b: "block_name 1 = ''block_1''" by code_simp
  from shrinking_pair_stride_zero [OF i sh c roles nz, where residual = None] b
  show ?thesis by simp
qed

text \<open>
  The schedule \<open>(3, 64, 32, 0, 5)\<close> has the shrinking pair \<open>(64, 32)\<close>, and its pair
  \<open>(0, 5)\<close> makes the constructor raise \<open>ZeroDivisionError\<close>; the schedule \<open>(3, 64, 32)\<close>
  with the layer order \<open>(conv, bogus)\<close> makes it raise \<open>KeyError\<close>.
\<close>

theorem shrinking_pair_counterexample:
  "(0 :: int) < 32 \<and> (32 :: int) < 64 \<and> ''conv'' \<in> set [''conv''] \<and>
   StridedConvEncoder_init [3, 64, 32, 0, 5] [''conv'']
     (Factory ''Conv2d'') (Some (Factory ''BatchNorm2d'')) (Factory ''LeakyReLU'') None
   = Inl ZeroDivisionError \<and>
   ''conv'' \<in> set [''conv'', ''bogus''] \<and>
   StridedConvEncoder_init [3, 64, 32] [''conv'', ''bogus'']
     (Factory ''Conv2d'') (Some (Factory ''BatchNorm2d'')) (Factory ''LeakyReLU'') None
   = Inl (KeyError ''bogus'')"
  by code_simp

section \<open>Claims about unregistered roles\<close>

text \<open>
  C5, as the code has it: let \<open>name\<close> be the first role of the layer order that is not a
  key of \<open>name2fn\<close>, the roles before it being bound to factories. If the encoder's
  schedule has at least 3 entries, its constructor raises \<open>KeyError name\<close>, or
  \<open>ZeroDivisionError\<close> when a \<open>conv\<close> role comes first and \<open>layers[1]\<close> is zero. If
  \<open>latent_channels\<close> of the head is not empty, its constructor raises \<open>KeyError name\<close>.
\<close>

theorem unregistered_role_KeyError:
  assumes "layer_order = pre @ name # post"
  shows
    "(3 \<le> length layers \<and>
      (\<forall>m \<in> set pre. \<exists>f. map_of (encoder_name2fn conv norm activation) m = Some (Some f)) \<and>
      map_of (encoder_name2fn conv norm activation) name = None \<longrightarrow>
        StridedConvEncoder_init layers layer_order conv norm activation residual =
          Inl (if layers ! 1 = 0 \<and> ''conv'' \<in> set pre then ZeroDivisionError else KeyError name)) \<and>
     (latent_channels \<noteq> None \<and> latent_channels \<noteq> Some [] \<and>
      (\<forall>m \<in> set pre. \<exists>f. map_of (head_name2fn linear activation norm dropout) m = Some (Some f)) \<and>
      map_of (head_name2fn linear activation norm dropout) name = None \<longrightarrow>
        LinearHead_init head_in head_out latent_channels layer_order linear activation norm dropout =
          Inl (KeyError name))"
proof (intro conjI impI)
  let ?n2f = "encoder_name2fn conv norm activation"
  assume a: "3 \<le> length layers \<and>
      (\<forall>m \<in> set pre. \<exists>f. map_of ?n2f m = Some (Some f)) \<and> map_of ?n2f name = None"
  then have pre: "\<forall>m \<in> set pre. map_of ?n2f m \<noteq> None" and name: "map_of ?n2f name = None"
    by fastforce+
  from name have nc: "name \<noteq> ''conv''"
    by (auto simp: encoder_name2fn_def)
  from a obtain rest where p: "pairwise (drop 1 layers) = (layers ! 1, layers ! 2) # rest"
    using pairwise_drop_first by blast
  have conv: "dict_getitem ?n2f ''conv'' = Inr (Some conv)"
    and act: "dict_getitem ?n2f ''activation'' = Inr (Some activation)"
    by (simp_all add: dict_getitem_def encoder_name2fn_def)
  from a have ne: "layers \<noteq> []" and l2: "\<not> length layers < 2" by auto
  have "encoder_block_list ?n2f (layers ! 1) (layers ! 2) layer_order =
          Inl (if layers ! 1 = 0 \<and> ''conv'' \<in> set pre then ZeroDivisionError else KeyError name)"
    unfolding assms using encoder_block_list_unregistered [OF pre name, of "layers ! 1" "layers ! 2" post] nc
    by simp
  then show "StridedConvEncoder_init layers layer_order conv norm activation residual =
          Inl (if layers ! 1 = 0 \<and> ''conv'' \<in> set pre then ZeroDivisionError else KeyError name)"
    by (simp add: StridedConvEncoder_init_def Let_def conv act list_getitem_0 list_getitem_1 ne l2 p
        del: One_nat_def)
next
  let ?n2f = "head_name2fn linear activation norm dropout"
  assume a: "latent_channels \<noteq> None \<and> latent_channels \<noteq> Some [] \<and>
      (\<forall>m \<in> set pre. \<exists>f. map_of ?n2f m = Some (Some f)) \<and> map_of ?n2f name = None"
  then have pre: "\<forall>m \<in> set pre. map_of ?n2f m \<noteq> None" and name: "map_of ?n2f name = None"
    by fastforce+
  from a obtain c cs where lat: "latent_channels = Some (c # cs)"
    by (cases latent_channels; cases "the latent_channels") auto
  have p: "butlast (pairwise (head_in # c # cs @ [head_out]))
             = (head_in, c) # butlast (pairwise (c # cs @ [head_out]))"
    using pairwise_channels [of c cs head_out] by (simp add: pairwise_def)
  have "head_block ?n2f head_in c layer_order = Inl (KeyError name)"
    unfolding assms by (rule head_block_unregistered [OF pre name])
  then show "LinearHead_init head_in head_out latent_channels layer_order linear activation norm dropout =
          Inl (KeyError name)"
    unfolding LinearHead_init_def Let_def lat by (simp add: p del: butlast.simps)
qed

theorem unregistered_role_witness:
  "StridedConvEncoder_init [3, 64, 128] [''conv'', ''bogus'', ''norm'']
     (Factory ''Conv2d'') (Some (Factory ''BatchNorm2d'')) (Factory ''LeakyReLU'') None
     = Inl (KeyError ''bogus'') \<and>
   LinearHead_init 512 1 (Some [128]) [''linear'', ''bogus'']
     (Factory ''Linear'') (Factory ''LeakyReLU'') None None
     = Inl (KeyError ''bogus'')"
proof -
  have e: "StridedConvEncoder_init [3, 64, 128] [''conv'', ''bogus'', ''norm'']
     (Factory ''Conv2d'') (Some (Factory ''BatchNorm2d'')) (Factory ''LeakyReLU'') None
     = Inl (KeyError ''bogus'')"
    using unregistered_role_KeyError [where layer_order = "[''conv'', ''bogus'', ''norm'']"
      and pre = "[''conv'']" and name = "''bogus''" and post = "[''norm'']"
      and layers = "[3, 64, 128]" and conv = "Factory ''Conv2d''"
      and norm = "Some (Factory ''BatchNorm2d'')" and activation = "Factory ''LeakyReLU''"
      and residual = None]
    by (simp add: encoder_name2fn_def)
  have h: "LinearHead_init 512 1 (Some [128]) [''linear'', ''bogus'']
     (Factory ''Linear'') (Factory ''LeakyReLU'') None None
     = Inl (KeyError ''bogus'')"
    using unregistered_role_KeyError [where layer_order = "[''linear'', ''bogus'']"
      and pre = "[''linear'']" and name = "''bogus''" and post = "[]"
      and latent_channels = "Some [128]" and head_in = 512 and head_out = 1
      and linear = "Factory ''Linear''" and activation = "Factory ''LeakyReLU''"
      and norm = None and dropout = None]
    by (simp add: head_name2fn_def)
  from e h show ?thesis by simp
qed

text \<open>
  With a schedule of 2 entries, or without latent channels, no loop reads the layer
  order: the constructors return although \<open>bogus\<close> is not a registered role. With 3
  entries the exception is \<open>KeyError\<close>.
\<close>

theorem unregistered_role_counterexample:
  "''bogus'' \<in> set [''conv'', ''bogus''] \<and>
   map_of (encoder_name2fn (Factory ''Conv2d'') (Some (Factory ''BatchNorm2d'')) (Factory ''LeakyReLU''))
     ''bogus'' = None \<and>
   StridedConvEncoder_init [3, 64] [''conv'', ''bogus'']
     (Factory ''Conv2d'') (Some (Factory ''BatchNorm2d'')) (Factory ''LeakyReLU'') None
   = Inr \<lparr>layers_attr = [3, 64],
          enc_net = Sequential
            [(''block_0'', Sequential
               [(''conv_0'', Layer (Factory ''Conv2d'') [3, 64] []),
                (''act'', Layer (Factory ''LeakyReLU'') [] [])])]\<rparr> \<and>
   StridedConvEncoder_init [3, 64, 128] [''conv'', ''bogus'']
     (Factory ''Conv2d'') (Some (Factory ''BatchNorm2d'')) (Factory ''LeakyReLU'') None
   = Inl (KeyError ''bogus'') \<and>
   ''bogus'' \<in> set [''linear'', ''bogus''] \<and>
   map_of (head_name2fn (Factory ''Linear'') (Factory ''LeakyReLU'') None None) ''bogus'' = None \<and>
   LinearHead_init 512 1 None [''linear'', ''bogus'']
     (Factory ''Linear'') (Factory ''LeakyReLU'') None None
   = Inr \<lparr>head_net = SequentialArgs [Layer (Factory ''Linear'') [512, 1] []]\<rparr>"
  by code_simp

section \<open>Claims about LinearHead\<close>

text \<open>
  C4, as the code has it: in every constructed head, the network is, for each adjacent
  pair of \<open>[in_channels] + latent_channels + [out_channels]\<close> but the last, the layers of the
  whole layer order, followed by one layer made by calling \<open>linear\<close> on the last pair
  without keyword arguments; nothing follows that layer. When no other role of the layer
  order is bound to the factory \<open>linear\<close>, the number of linear layers is 1 plus, for each
  latent width, the number of times \<open>linear\<close> occurs in the layer order: 2 for one latent
  width and a layer order with one \<open>linear\<close>, such as the default. Without latent channels
  the constructor always returns, and the network is the single linear layer from
  \<open>in_channels\<close> to \<open>out_channels\<close>.
\<close>

theorem linear_head_layout:
  fixes head_in head_out :: int and latent_channels :: "int list option"
    and linear activation :: factory and norm dropout :: "factory option"
  defines "latent \<equiv> (case latent_channels of None \<Rightarrow> [] | Some l \<Rightarrow> l)"
    and "name2fn \<equiv> head_name2fn linear activation norm dropout"
  shows
    "(\<forall>self.
        LinearHead_init head_in head_out latent_channels layer_order linear activation norm dropout
          = Inr self \<longrightarrow>
        (latent \<noteq> [] \<longrightarrow> (\<forall>name \<in> set layer_order. map_of name2fn name \<noteq> None)) \<and>
        head_net self = SequentialArgs
          (concat (map (\<lambda>(a, b). map (\<lambda>name. create_layer name (the (map_of name2fn name)) a b [])
                                   layer_order)
                     (butlast (pairwise (head_in # latent @ [head_out]))))
           @ [Layer linear [last (head_in # latent), head_out] []]) \<and>
        ((\<forall>name \<in> set layer_order. name \<noteq> ''linear'' \<longrightarrow> map_of name2fn name \<noteq> Some (Some linear)) \<longrightarrow>
           count_layers_of linear (head_net self) = 1 + length latent * count_list layer_order ''linear'')) \<and>
     (latent = [] \<longrightarrow>
        LinearHead_init head_in head_out latent_channels layer_order linear activation norm dropout
          = Inr \<lparr>head_net = SequentialArgs [Layer linear [head_in, head_out] []]\<rparr>)"
proof (intro conjI allI impI)
  have l: "latent = head_latent latent_channels"
    by (simp add: latent_def head_latent_def)
  let ?pairs = "butlast (pairwise (head_in # latent @ [head_out]))"
  have e: "(\<lambda>(a, b). map (\<lambda>name. create_layer name (the (map_of n2f name)) a b []) layer_order)
           = (\<lambda>ch. map (head_entry n2f ch) layer_order)" for n2f
    by (simp add: fun_eq_iff head_entry_def)
  {
    fix self
    assume s: "LinearHead_init head_in head_out latent_channels layer_order linear activation norm dropout
                = Inr self"
    from s show reg: "\<forall>name \<in> set layer_order. map_of name2fn name \<noteq> None" if "latent \<noteq> []"
      using that unfolding LinearHead_init_Inr_iff l name2fn_def by blast
    from s show net: "head_net self = SequentialArgs
          (concat (map (\<lambda>(a, b). map (\<lambda>name. create_layer name (the (map_of name2fn name)) a b [])
                                   layer_order) ?pairs)
           @ [Layer linear [last (head_in # latent), head_out] []])"
      unfolding e LinearHead_init_Inr_iff l name2fn_def by simp
    assume other: "\<forall>name \<in> set layer_order. name \<noteq> ''linear'' \<longrightarrow> map_of name2fn name \<noteq> Some (Some linear)"
    have lin: "map_of name2fn ''linear'' = Some (Some linear)"
      by (simp add: name2fn_def head_name2fn_def)
    have len: "length ?pairs = length latent"
      using pairwise_channels [of head_in latent head_out] by simp
    have "length (filter (is_layer_of linear)
             (concat (map (\<lambda>ch. map (head_entry name2fn ch) layer_order) ?pairs)))
          = length latent * count_list layer_order ''linear''"
    proof (cases "latent = []")
      case True
      then show ?thesis by (simp add: pairwise_def)
    next
      case False
      have "\<forall>ch \<in> set ?pairs.
              length (filter (is_layer_of linear) (map (head_entry name2fn ch) layer_order))
                = count_list layer_order ''linear''"
        using count_head_entries [OF reg [OF False] lin other] by blast
      then have sum: "sum_list (map (\<lambda>ch. length (filter (is_layer_of linear)
                    (map (head_entry name2fn ch) layer_order))) ?pairs)
                 = length ?pairs * count_list layer_order ''linear''"
        by (rule sum_list_const)
      have "length (filter (is_layer_of linear)
               (concat (map (\<lambda>ch. map (head_entry name2fn ch) layer_order) ?pairs)))
            = sum_list (map (\<lambda>ch. length (filter (is_layer_of linear)
                    (map (head_entry name2fn ch) layer_order))) ?pairs)"
        by (simp only: length_filter_concat map_map comp_def)
      also note sum
      also have "length ?pairs * count_list layer_order ''linear''
                 = length latent * count_list layer_order ''linear''"
        by (simp only: len)
      finally show ?thesis .
    qed
    then show "count_layers_of linear (head_net self) = 1 + length latent * count_list layer_order ''linear''"
      unfolding net e by (simp add: count_layers_of_def)
  }
  assume "latent = []"
  then show "LinearHead_init head_in head_out latent_channels layer_order linear activation norm dropout
          = Inr \<lparr>head_net = SequentialArgs [Layer linear [head_in, head_out] []]\<rparr>"
    unfolding LinearHead_init_Inr_iff l by (simp add: pairwise_def)
qed

theorem linear_head_layout_witness:
  "LinearHead_init 512 1 (Some [128]) [''linear'', ''activation'']
     (Factory ''Linear'') (Factory ''LeakyReLU'') None None
   = Inr \<lparr>head_net = SequentialArgs
       [Layer (Factory ''Linear'') [512, 128] [],
        Layer (Factory ''LeakyReLU'') [512, 128] [],
        Layer (Factory ''Linear'') [128, 1] []]\<rparr> \<and>
   count_layers_of (Factory ''Linear'') (SequentialArgs
       [Layer (Factory ''Linear'') [512, 128] [],
        Layer (Factory ''LeakyReLU'') [512, 128] [],
        Layer (Factory ''Linear'') [128, 1] []]) = 2 \<and>
   LinearHead_init 512 1 None [''linear'', ''activation'']
     (Factory ''Linear'') (Factory ''LeakyReLU'') None None
   = Inr \<lparr>head_net = SequentialArgs [Layer (Factory ''Linear'') [512, 1] []]\<rparr>"
proof -
  let ?net = "SequentialArgs
       [Layer (Factory ''Linear'') [512, 128] [],
        Layer (Factory ''LeakyReLU'') [512, 128] [],
        Layer (Factory ''Linear'') [128, 1] []]"
  let ?order = "[''linear'', ''activation'']"
  have s: "LinearHead_init 512 1 (Some [128]) ?order
     (Factory ''Linear'') (Factory ''LeakyReLU'') None None = Inr \<lparr>head_net = ?net\<rparr>"
    by code_simp
  have other: "\<forall>name \<in> set ?order. name \<noteq> ''linear'' \<longrightarrow>
      map_of (head_name2fn (Factory ''Linear'') (Factory ''LeakyReLU'') None None) name
        \<noteq> Some (Some (Factory ''Linear''))"
    by (simp add: head_name2fn_def)
  from linear_head_layout [where head_in = 512 and head_out = 1 and latent_channels = "Some [128]"
      and layer_order = ?order and linear = "Factory ''Linear''" and activation = "Factory ''LeakyReLU''"
      and norm = None and dropout = None]
    s other
  have c: "count_layers_of (Factory ''Linear'') (head_net \<lparr>head_net = ?net\<rparr>)
             = 1 + length [128 :: int] * count_list ?order ''linear''"
    by simp
  from linear_head_layout [where head_in = 512 and head_out = 1 and latent_channels = None
      and layer_order = ?order and linear = "Factory ''Linear''" and activation = "Factory ''LeakyReLU''"
      and norm = None and dropout = None]
  have n: "LinearHead_init 512 1 None ?order (Factory ''Linear'') (Factory ''LeakyReLU'') None None
             = Inr \<lparr>head_net = SequentialArgs [Layer (Factory ''Linear'') [512, 1] []]\<rparr>"
    by simp
  from s c n show ?thesis by simp
qed

text \<open>
  With \<open>latent_channels = (128,)\<close> the layer order \<open>(linear, linear)\<close> gives 3 linear
  layers and the layer order \<open>(activation,)\<close> gives 1.
\<close>

theorem linear_count_counterexample:
  "LinearHead_init 512 1 (Some [128]) [''linear'', ''linear'']
     (Factory ''Linear'') (Factory ''LeakyReLU'') None None
   = Inr \<lparr>head_net = SequentialArgs
       [Layer (Factory ''Linear'') [512, 128] [],
        Layer (Factory ''Linear'') [512, 128] [],
        Layer (Factory ''Linear'') [128, 1] []]\<rparr> \<and>
   count_layers_of (Factory ''Linear'') (SequentialArgs
       [Layer (Factory ''Linear'') [512, 128] [],
        Layer (Factory ''Linear'') [512, 128] [],
        Layer (Factory ''Linear'') [128, 1] []]) = 3 \<and>
   LinearHead_init 512 1 (Some [128]) [''activation'']
     (Factory ''Linear'') (Factory ''LeakyReLU'') None None
   = Inr \<lparr>head_net = SequentialArgs
       [Layer (Factory ''LeakyReLU'') [512, 128] [],
        Layer (Factory ''Linear'') [128, 1] []]\<rparr> \<and>
   count_layers_of (Factory ''Linear'') (SequentialArgs
       [Layer (Factory ''LeakyReLU'') [512, 128] [],
        Layer (Factory ''Linear'') [128, 1] []]) = 1"
  by code_simp

section \<open>Claims about VGGConv\<close>




text \<open>
  C9: the constructor applies the initialisation routine to the network with its
  encoder, pool and head in place and logs that one call; \<open>forward\<close> adds no such call.
  In the log of a whole life of the object, construction followed by any number of
  forward passes, the initialisation is the first entry and occurs exactly once.
\<close>

theorem net_init_exactly_once:
  "VGGConv_init net_init e p h log = (net_init \<lparr>encoder = e, pool = p, head = h\<rparr>, log @ [NetInit]) \<and>
   count_list (snd (VGGConv_forward run self x log)) NetInit = count_list log NetInit \<and>
   count_list (VGGConv_lifetime net_init run e p h xs) NetInit = 1 \<and>
   (\<exists>calls. VGGConv_lifetime net_init run e p h xs = NetInit # calls \<and> NetInit \<notin> set calls)"
proof -
  let ?self = "net_init \<lparr>encoder = e, pool = p, head = h\<rparr>"
  have i: "VGGConv_init net_init e p h log = (?self, log @ [NetInit])" for log
    by (simp add: VGGConv_init_def)
  have lt: "VGGConv_lifetime net_init run e p h xs = VGGConv_forwards run ?self xs [NetInit]"
    by (simp add: VGGConv_lifetime_def i)
  have c: "count_list (VGGConv_lifetime net_init run e p h xs) NetInit = 1"
    by (simp add: lt count_NetInit_forwards)
  obtain calls where calls: "VGGConv_lifetime net_init run e p h xs = NetInit # calls"
    unfolding lt using forwards_extends_log [of run ?self xs "[NetInit]"] by auto
  with c have "NetInit \<notin> set calls" by (simp add: count_list_0_iff)
  with i c calls show ?thesis by (simp add: count_NetInit_forward)
qed

theorem net_init_exactly_once_witness:
  "VGGConv_lifetime (\<lambda>self. self) (\<lambda>m t. Inr \<lparr>shape = m, strides = contiguous_strides m, elems = elems t\<rparr>)
      [2, 3, 4, 4] [2, 3, 1, 1] [2, 1]
      [\<lparr>shape = [2, 1, 8, 8], strides = [64, 64, 8, 1], elems = [] :: int list\<rparr>,
       \<lparr>shape = [2, 1, 8, 8], strides = [64, 64, 8, 1], elems = []\<rparr>]
    = [NetInit, ModuleCall ''encoder'', ModuleCall ''pool'', ModuleCall ''head'',
       ModuleCall ''encoder'', ModuleCall ''pool'', ModuleCall ''head''] \<and>
   count_list (VGGConv_lifetime (\<lambda>self. self)
      (\<lambda>m t. Inr \<lparr>shape = m, strides = contiguous_strides m, elems = elems t\<rparr>)
      [2, 3, 4, 4] [2, 3, 1, 1] [2, 1]
      [\<lparr>shape = [2, 1, 8, 8], strides = [64, 64, 8, 1], elems = [] :: int list\<rparr>,
       \<lparr>shape = [2, 1, 8, 8], strides = [64, 64, 8, 1], elems = []\<rparr>]) NetInit = 1"
proof -
  let ?xs = "[\<lparr>shape = [2, 1, 8, 8], strides = [64, 64, 8, 1], elems = [] :: int list\<rparr>,
       \<lparr>shape = [2, 1, 8, 8], strides = [64, 64, 8, 1], elems = []\<rparr>]"
  let ?run = "\<lambda>(m :: nat list) (t :: int tensor).
      (Inr \<lparr>shape = m, strides = contiguous_strides m, elems = elems t\<rparr> :: error + int tensor)"
  have l: "VGGConv_lifetime (\<lambda>self. self) ?run [2, 3, 4, 4] [2, 3, 1, 1] [2, 1] ?xs
    = [NetInit, ModuleCall ''encoder'', ModuleCall ''pool'', ModuleCall ''head'',
       ModuleCall ''encoder'', ModuleCall ''pool'', ModuleCall ''head'']"
    by code_simp
  from net_init_exactly_once [where net_init = "\<lambda>self. self" and e = "[2, 3, 4, 4]"
      and p = "[2, 3, 1, 1]" and h = "[2, 1]" and run = ?run and xs = ?xs]
  have "count_list (VGGConv_lifetime (\<lambda>self. self) ?run [2, 3, 4, 4] [2, 3, 1, 1] [2, 1] ?xs) NetInit = 1"
    by blast
  with l show ?thesis by simp
qed

end
